theory Spec2Isabelle
  imports Main "HOL-Library.Word"
begin

section \<open>The interactsh client (pkg/client/client.go)\<close>

text \<open>
  The client registers a public key with an interactsh server, mints probe
  host names (\<open>URL\<close>), polls the server for encrypted interactions and
  deregisters on \<open>Close\<close>. The calls the client makes into other packages
  (net/url, uuid, xid, tink, jsoniter, retryablehttp) are collected in the
  record \<open>env\<close>: each field is the outcome of one such call, so that every
  \<open>if err != nil\<close> of the source is a branch of the model.
\<close>

subsection \<open>Errors\<close>

text \<open>
  A Go \<open>error\<close> is \<open>error option\<close>: \<open>None\<close> is \<open>nil\<close>.
  \<open>errors.Wrap\<close> of github.com/pkg/errors annotates an error with a message
  and, as its documentation says, returns \<open>nil\<close> when the error it is given
  is \<open>nil\<close>.
\<close>

datatype error = Failure string | Wrapped error string

definition Wrap :: "error option \<Rightarrow> string \<Rightarrow> error option" where
  "Wrap err message = (case err of None \<Rightarrow> None | Some e \<Rightarrow> Some (Wrapped e message))"

datatype panic = CloseOfNilChannel | CloseOfClosedChannel | NilDereference | NonPositiveInterval

subsection \<open>Data\<close>

type_synonym byte = "8 word"
type_synonym bytes = "byte list"

text \<open>The parsed server address: what \<open>serverURL.String()\<close> and \<open>serverURL.Host\<close> give.\<close>

record parsed_url =
  url_String :: string
  url_Host :: string

text \<open>
  \<open>chan struct{}\<close>, as far as \<open>close\<close> can tell: the zero value \<open>nil\<close>, a
  channel made by \<open>make\<close>, and a channel that has been closed.
\<close>

datatype chan = NilChan | OpenChan | ClosedChan

text \<open>\<open>tink.HybridDecrypt\<close>: \<open>Decrypt(ciphertext, nil)\<close> gives a plaintext or an error.\<close>

type_synonym HybridDecrypt = "bytes \<Rightarrow> error + bytes"

text \<open>
  The struct \<open>Client\<close>. The field \<open>httpClient\<close> is the \<open>Do\<close> of the
  environment; \<open>decrypter\<close> and \<open>quitChan\<close> are \<open>nil\<close> in the struct literal
  of \<open>New\<close>.
\<close>

record Client =
  correlationID :: string
  secretKey :: string
  serverURL :: parsed_url
  decrypter :: "HybridDecrypt option"
  quitChan :: chan
  persistentSession :: bool

record Options =
  ServerURL :: string
  PersistentSession :: bool

subsection \<open>Polling lifecycle: the quit channel\<close>

text \<open>
  \<open>StartPolling\<close> makes the ticker (\<open>time.NewTicker\<close> panics on a duration
  that is not positive), assigns a fresh channel to \<open>quitChan\<close> and starts
  the polling goroutine. \<open>StopPolling\<close> is \<open>close(c.quitChan)\<close>: Go panics on
  closing a nil channel and on closing a closed one.
\<close>

definition StartPolling :: "int \<Rightarrow> Client \<Rightarrow> panic + Client" where
  "StartPolling duration c =
     (if duration \<le> 0 then Inl NonPositiveInterval
      else Inr (c\<lparr>quitChan := OpenChan\<rparr>))"

definition StopPolling :: "Client \<Rightarrow> panic + Client" where
  "StopPolling c =
     (case quitChan c of
        NilChan \<Rightarrow> Inl CloseOfNilChannel
      | ClosedChan \<Rightarrow> Inl CloseOfClosedChannel
      | OpenChan \<Rightarrow> Inr (c\<lparr>quitChan := ClosedChan\<rparr>))"

subsection \<open>Wire formats and the environment\<close>

text \<open>
  Modelled from the spec: the structs \<open>RegisterRequest\<close>, \<open>DeregisterRequest\<close>,
  \<open>PollResponse\<close> and \<open>Interaction\<close> of package \<open>server\<close>, which is not among the
  sources. The spec gives \<open>{publicKey: bytes, secretKey: string, correlationID:
  string}\<close>, \<open>{correlationID: string}\<close>, \<open>{data: ordered sequence of ciphertext
  blobs}\<close> and an opaque JSON-decodable record; the field names are those the
  client's code uses.
\<close>

record RegisterRequest =
  PublicKey :: bytes
  SecretKey :: string
  CorrelationID :: string

datatype DeregisterRequest = DeregisterRequest (dereg_CorrelationID: string)

record PollResponse =
  Data :: "bytes list"

datatype Interaction = Interaction string

text \<open>An HTTP request as \<open>retryablehttp.NewRequest\<close> builds it, and a response.\<close>

record request =
  req_Method :: string
  req_URL :: string
  req_Body :: "bytes option"
  req_ContentLength :: int

record response =
  StatusCode :: int
  Body :: bytes

text \<open>Tink's keyset handle and the keyset protobuf, both opaque to the client.\<close>

datatype Handle = Handle bytes
datatype Keyset = Keyset bytes

record env =
  url_Parse :: "string \<Rightarrow> error + parsed_url"
  uuid_New :: string
  xid_New :: string
  keyset_NewHandle :: "error + Handle"
  hybrid_NewHybridDecrypt :: "Handle \<Rightarrow> error + HybridDecrypt"
  Handle_Public :: "Handle \<Rightarrow> error + Handle"
  insecurecleartextkeyset_Write :: "Handle \<Rightarrow> error + Keyset"
  XXX_Marshal :: "Keyset \<Rightarrow> error + bytes"
  Marshal_RegisterRequest :: "RegisterRequest \<Rightarrow> error + bytes"
  Marshal_DeregisterRequest :: "DeregisterRequest \<Rightarrow> error + bytes"
  NewRequest_error :: "string \<Rightarrow> string \<Rightarrow> error option"
  httpClient_Do :: "request \<Rightarrow> error + response"
  Decode_PollResponse :: "bytes \<Rightarrow> error + PollResponse"
  Unmarshal_Interaction :: "bytes \<Rightarrow> error + Interaction"

text \<open>
  \<open>retryablehttp.NewRequest(method, url, body)\<close>: an error, or the request with
  that method, address and body; \<open>net/http\<close> sets the content length of a
  \<open>bytes.Reader\<close> body to its length.
\<close>

definition NewRequest :: "env \<Rightarrow> string \<Rightarrow> string \<Rightarrow> bytes option \<Rightarrow> error + request" where
  "NewRequest env method u body =
     (case NewRequest_error env method u of
        Some err \<Rightarrow> Inl err
      | None \<Rightarrow>
          Inr \<lparr>req_Method = method, req_URL = u, req_Body = body,
               req_ContentLength = (case body of None \<Rightarrow> 0 | Some d \<Rightarrow> int (length d))\<rparr>)"

subsection \<open>Construction and registration\<close>

text \<open>
  \<open>generateRSAKeyPair\<close> returns the client as the method leaves it (it assigns
  \<open>c.decrypter\<close>), the error, and the requests it handed to \<open>httpClient.Do\<close>.
  The error of \<open>exportedPub.Read()\<close> is overwritten unread, so the keyset read
  back is the one \<open>Write\<close> stored. On the last branch \<open>err\<close> is still the error
  of \<open>Do\<close>, which is \<open>nil\<close> there. The deferred function only closes and
  drains the response body.
\<close>

definition generateRSAKeyPair :: "env \<Rightarrow> Client \<Rightarrow> Client \<times> error option \<times> request list" where
  "generateRSAKeyPair env c =
     (case keyset_NewHandle env of
        Inl err \<Rightarrow> (c, Wrap (Some err) ''could not generate encryption keyset'', [])
      | Inr khPriv \<Rightarrow>
     (case hybrid_NewHybridDecrypt env khPriv of
        Inl err \<Rightarrow> (c, Wrap (Some err) ''could not create new decrypter'', [])
      | Inr hdec \<Rightarrow>
     (let c = c\<lparr>decrypter := Some hdec\<rparr> in
     (case Handle_Public env khPriv of
        Inl err \<Rightarrow> (c, Wrap (Some err) ''could not get keyset public-key'', [])
      | Inr khPub \<Rightarrow>
     (case insecurecleartextkeyset_Write env khPub of
        Inl err \<Rightarrow> (c, Wrap (Some err) ''could not write keyset public key'', [])
      | Inr keyset \<Rightarrow>
     (case XXX_Marshal env keyset of
        Inl err \<Rightarrow> (c, Wrap (Some err) ''could not marshal public key'', [])
      | Inr key \<Rightarrow>
     (let register = \<lparr>PublicKey = key, SecretKey = secretKey c,
                       CorrelationID = correlationID c\<rparr> in
     (case Marshal_RegisterRequest env register of
        Inl err \<Rightarrow> (c, Wrap (Some err) ''could not marshal register request'', [])
      | Inr data \<Rightarrow>
     (case NewRequest env ''POST'' (url_String (serverURL c) @ ''/register'') (Some data) of
        Inl err \<Rightarrow> (c, Wrap (Some err) ''could not create new request'', [])
      | Inr req \<Rightarrow>
     (let req = req\<lparr>req_ContentLength := int (length data)\<rparr> in
     (case httpClient_Do env req of
        Inl err \<Rightarrow> (c, Wrap (Some err) ''could not make register request'', [req])
      | Inr resp \<Rightarrow>
     (let err = None in
      if StatusCode resp \<noteq> 200
      then (c, Wrap err ''could not register to server'', [req])
      else (c, None, [req])))))))))))))"

text \<open>\<open>New\<close> returns the pair \<open>(*Client, error)\<close> and the requests sent.\<close>

definition New :: "env \<Rightarrow> Options \<Rightarrow> Client option \<times> error option \<times> request list" where
  "New env options =
     (case url_Parse env (ServerURL options) of
        Inl err \<Rightarrow> (None, Wrap (Some err) ''could not parse server URL'', [])
      | Inr parsed \<Rightarrow>
     (let client = \<lparr>correlationID = xid_New env, secretKey = uuid_New env,
                     serverURL = parsed, decrypter = None, quitChan = NilChan,
                     persistentSession = PersistentSession options\<rparr> in
      case generateRSAKeyPair env client of
        (client, Some err, sent) \<Rightarrow> (None, Some err, sent)
      | (client, None, sent) \<Rightarrow> (Some client, None, sent)))"

subsection \<open>Polling\<close>

text \<open>
  The loop over \<open>response.Data\<close>. The last argument is the list of interactions
  the callback has been called with so far, in call order. Calling \<open>Decrypt\<close>
  on a nil \<open>decrypter\<close> is a nil dereference.
\<close>

fun deliver :: "HybridDecrypt option \<Rightarrow> env \<Rightarrow> bytes list \<Rightarrow> Interaction list \<Rightarrow>
    panic + Interaction list" where
  "deliver d env [] called = Inr called"
| "deliver d env (data # rest) called =
     (case d of
        None \<Rightarrow> Inl NilDereference
      | Some dec \<Rightarrow>
         (case dec data of
            Inl err \<Rightarrow> deliver d env rest called
          | Inr plaintext \<Rightarrow>
             (case Unmarshal_Interaction env plaintext of
                Inl err \<Rightarrow> deliver d env rest called
              | Inr interaction \<Rightarrow> deliver d env rest (called @ [interaction]))))"

text \<open>
  \<open>getInteractions\<close> has no result: the model returns the requests handed to
  \<open>httpClient.Do\<close> and the interactions the callback was called with (or the
  panic).
\<close>

definition getInteractions :: "env \<Rightarrow> Client \<Rightarrow> request list \<times> (panic + Interaction list)" where
  "getInteractions env c =
     (case NewRequest env ''GET''
             (url_String (serverURL c) @ ''/poll?id='' @ correlationID c @
              ''&secret='' @ secretKey c) None of
        Inl err \<Rightarrow> ([], Inr [])
      | Inr req \<Rightarrow>
     (case httpClient_Do env req of
        Inl err \<Rightarrow> ([req], Inr [])
      | Inr resp \<Rightarrow>
          if StatusCode resp \<noteq> 200 then ([req], Inr [])
          else
            (case Decode_PollResponse env (Body resp) of
               Inl err \<Rightarrow> ([req], Inr [])
             | Inr response \<Rightarrow> ([req], deliver (decrypter c) env (Data response) []))))"

subsection \<open>Teardown\<close>

text \<open>\<open>Close\<close> returns its error and the requests handed to \<open>httpClient.Do\<close>.\<close>

definition Close :: "env \<Rightarrow> Client \<Rightarrow> error option \<times> request list" where
  "Close env c =
     (if \<not> persistentSession c then
        (let register = DeregisterRequest (correlationID c) in
         case Marshal_DeregisterRequest env register of
           Inl err \<Rightarrow> (Wrap (Some err) ''could not marshal deregister request'', [])
         | Inr data \<Rightarrow>
        (case NewRequest env ''POST'' (url_String (serverURL c) @ ''/deregister'') (Some data) of
           Inl err \<Rightarrow> (Wrap (Some err) ''could not create new request'', [])
         | Inr req \<Rightarrow>
        (let req = req\<lparr>req_ContentLength := int (length data)\<rparr> in
         case httpClient_Do env req of
           Inl err \<Rightarrow> (Wrap (Some err) ''could not make deregister request'', [req])
         | Inr resp \<Rightarrow>
            (let err = None in
             if StatusCode resp \<noteq> 200
             then (Wrap err ''could not deregister to server'', [req])
             else (None, [req])))))
      else (None, []))"

subsection \<open>Identifiers\<close>

text \<open>
  \<open>zbase32.StdEncoding.EncodeToString\<close> belongs to the package
  gopkg.in/corvus-ch/zbase32.v1. It is z-base-32: the bits of the input, most
  significant bit of the first byte first, are cut into groups of five, the
  last group filled with zero bits, and each group selects one character of
  the alphabet below. No padding character is written.
\<close>

definition alphabet :: string where
  "alphabet = ''ybndrfg8ejkmcpqxot1uwisza345h769''"

fun bits_of :: "nat \<Rightarrow> nat \<Rightarrow> bool list" where
  "bits_of 0 n = []"
| "bits_of (Suc k) n = bits_of k (n div 2) @ [odd n]"

definition byte_bits :: "byte \<Rightarrow> bool list" where
  "byte_bits b = bits_of 8 (unat b)"

fun quintets :: "bool list \<Rightarrow> bool list list" where
  "quintets (a # b # c # d # e # rest) = [a, b, c, d, e] # quintets rest"
| "quintets [] = []"
| "quintets rest = [take 5 (rest @ replicate 4 False)]"

definition bitval :: "bool list \<Rightarrow> nat" where
  "bitval bs = foldl (\<lambda>n b. 2 * n + (if b then 1 else 0)) 0 bs"

definition zbase32_digits :: "bytes \<Rightarrow> nat list" where
  "zbase32_digits src = map bitval (quintets (concat (map byte_bits src)))"

definition EncodeToString :: "bytes \<Rightarrow> string" where
  "EncodeToString src = map (\<lambda>d. alphabet ! d) (zbase32_digits src)"

text \<open>
  \<open>binary.BigEndian.PutUint32(b[off:off+4], v)\<close>: \<open>byte(v >> 24)\<close>,
  \<open>byte(v >> 16)\<close>, \<open>byte(v >> 8)\<close>, \<open>byte(v)\<close> written at \<open>off\<close>. \<open>URL\<close>
  calls it on \<open>random[0:4]\<close> and \<open>random[4:8]\<close> of its eight bytes, so every
  write is in range.
\<close>

definition PutUint32 :: "bytes \<Rightarrow> nat \<Rightarrow> 32 word \<Rightarrow> bytes" where
  "PutUint32 b off v =
     b[off := ucast (drop_bit 24 v), off + 1 := ucast (drop_bit 16 v),
       off + 2 := ucast (drop_bit 8 v), off + 3 := ucast v]"

text \<open>
  \<open>URL\<close> takes the value of \<open>time.Now().Unix()\<close> (an \<open>int64\<close>, converted to
  \<open>uint32\<close>) and the package variable \<open>objectIDCounter\<close>, and returns the
  string and the counter after \<open>atomic.AddUint32\<close>, whose result is the new
  value.
\<close>

definition URL :: "Client \<Rightarrow> int \<Rightarrow> 32 word \<Rightarrow> string \<times> 32 word" where
  "URL c now objectIDCounter =
     (let random = replicate 8 0;
          i = objectIDCounter + 1;
          random = PutUint32 random 0 (word_of_int now);
          random = PutUint32 random 4 i
      in (correlationID c @ EncodeToString random @ ''.'' @ [] @ url_Host (serverURL c), i))"

text \<open>
  A sequence of calls of \<open>URL\<close> in one process, each by some client at some
  clock reading, in the order in which the atomic additions take effect.
\<close>

fun URLs :: "(Client \<times> int) list \<Rightarrow> 32 word \<Rightarrow> string list" where
  "URLs [] objectIDCounter = []"
| "URLs ((c, now) # calls) objectIDCounter =
     fst (URL c now objectIDCounter) # URLs calls (snd (URL c now objectIDCounter))"

subsection \<open>Calls on a client, in sequence\<close>

text \<open>
  The methods a caller can invoke on a constructed client, with the state
  they act on: the client and \<open>objectIDCounter\<close>. \<open>URL\<close>, \<open>getInteractions\<close>
  and \<open>Close\<close> assign no field of the client. A panic ends the process.
\<close>

datatype call =
  CallURL int
| CallStartPolling int
| CallGetInteractions env
| CallStopPolling
| CallClose env

fun invoke :: "call \<Rightarrow> Client \<times> 32 word \<Rightarrow> panic + Client \<times> 32 word" where
  "invoke (CallURL now) (c, n) = Inr (c, snd (URL c now n))"
| "invoke (CallStartPolling duration) (c, n) =
     (case StartPolling duration c of Inl p \<Rightarrow> Inl p | Inr c' \<Rightarrow> Inr (c', n))"
| "invoke (CallGetInteractions env) (c, n) =
     (case snd (getInteractions env c) of Inl p \<Rightarrow> Inl p | Inr called \<Rightarrow> Inr (c, n))"
| "invoke CallStopPolling (c, n) =
     (case StopPolling c of Inl p \<Rightarrow> Inl p | Inr c' \<Rightarrow> Inr (c', n))"
| "invoke (CallClose env) (c, n) = Inr (c, n)"

fun invoke_all :: "call list \<Rightarrow> Client \<times> 32 word \<Rightarrow> panic + Client \<times> 32 word" where
  "invoke_all [] s = Inr s"
| "invoke_all (x # xs) s = (case invoke x s of Inl p \<Rightarrow> Inl p | Inr s' \<Rightarrow> invoke_all xs s')"

subsection \<open>The polling goroutine and its caller\<close>

text \<open>
  After \<open>StartPolling\<close> two threads run: the goroutine, which is at its
  \<open>select\<close>, inside \<open>getInteractions\<close> with some callbacks still to make, or
  gone; and the caller, who may call \<open>StopPolling\<close>. The moves are the atomic
  steps of the two:
  \<^item> \<open>Tick env\<close>: the \<open>select\<close> takes \<open>ticker.C\<close> and \<open>getInteractions\<close> fetches
    and decodes what the server answers at that moment (\<open>env\<close>);
  \<^item> \<open>Deliver\<close>: the next \<open>callback(interaction)\<close>;
  \<^item> \<open>Return\<close>: \<open>getInteractions\<close> returns and the loop is at \<open>select\<close> again;
  \<^item> \<open>Quit\<close>: the \<open>select\<close> takes \<open>c.quitChan\<close>, which only a closed channel
    offers, stops the ticker and returns;
  \<^item> \<open>Stop\<close>: the caller's \<open>StopPolling\<close> runs and returns.
  When both cases of the \<open>select\<close> are ready Go picks either, so \<open>Tick\<close> and
  \<open>Quit\<close> may both be enabled. The trace records every callback and every
  return of \<open>StopPolling\<close>. A move that is not enabled, or that panics, gives
  \<open>None\<close>.
\<close>

datatype poller = AtSelect | InTick "Interaction list" | Exited

datatype event = Callback Interaction | StopPollingReturned

record process =
  client :: Client
  poller :: poller
  trace :: "event list"

datatype move = Tick env | Deliver | Return | Quit | Stop

fun step :: "move \<Rightarrow> process \<Rightarrow> process option" where
  "step (Tick env) s =
     (case poller s of
        AtSelect \<Rightarrow>
          (case snd (getInteractions env (client s)) of
             Inl p \<Rightarrow> None
           | Inr called \<Rightarrow> Some (s\<lparr>poller := InTick called\<rparr>))
      | _ \<Rightarrow> None)"
| "step Deliver s =
     (case poller s of
        InTick (interaction # rest) \<Rightarrow>
          Some (s\<lparr>poller := InTick rest, trace := trace s @ [Callback interaction]\<rparr>)
      | _ \<Rightarrow> None)"
| "step Return s =
     (case poller s of
        InTick [] \<Rightarrow> Some (s\<lparr>poller := AtSelect\<rparr>)
      | _ \<Rightarrow> None)"
| "step Quit s =
     (case poller s of
        AtSelect \<Rightarrow>
          (if quitChan (client s) = ClosedChan then Some (s\<lparr>poller := Exited\<rparr>) else None)
      | _ \<Rightarrow> None)"
| "step Stop s =
     (case StopPolling (client s) of
        Inl p \<Rightarrow> None
      | Inr c \<Rightarrow> Some (s\<lparr>client := c, trace := trace s @ [StopPollingReturned]\<rparr>))"

fun run :: "move list \<Rightarrow> process \<Rightarrow> process option" where
  "run [] s = Some s"
| "run (m # ms) s = (case step m s of None \<Rightarrow> None | Some s' \<Rightarrow> run ms s')"

text \<open>The process right after \<open>StartPolling\<close> has returned the client \<open>c\<close>.\<close>

definition polling :: "Client \<Rightarrow> process" where
  "polling c = \<lparr>client = c, poller = AtSelect, trace = []\<rparr>"

text \<open>The callbacks of a trace, and whether a callback follows a return of \<open>StopPolling\<close>.\<close>

fun callbacks :: "event list \<Rightarrow> Interaction list" where
  "callbacks [] = []"
| "callbacks (Callback i # es) = i # callbacks es"
| "callbacks (StopPollingReturned # es) = callbacks es"

fun callback_after_stop :: "event list \<Rightarrow> bool" where
  "callback_after_stop [] = False"
| "callback_after_stop (StopPollingReturned # es) = (callbacks es \<noteq> [] \<or> callback_after_stop es)"
| "callback_after_stop (Callback i # es) = callback_after_stop es"

subsection \<open>The decoder's rule for one blob\<close>

text \<open>
  What the spec asks of the decoder for a single ciphertext blob: the
  interaction to call back with, or nothing when decryption or parsing fails.
  The loop \<open>deliver\<close> above is compared with it.
\<close>

definition decode_blob :: "HybridDecrypt \<Rightarrow> env \<Rightarrow> bytes \<Rightarrow> Interaction option" where
  "decode_blob dec env data =
     (case dec data of
        Inl err \<Rightarrow> None
      | Inr plaintext \<Rightarrow>
          (case Unmarshal_Interaction env plaintext of
             Inl err \<Rightarrow> None
           | Inr interaction \<Rightarrow> Some interaction))"

subsection \<open>A sample server\<close>

text \<open>
  A concrete environment: every local step succeeds, the server answers each
  request with the given status, and a poll answered with 200 carries the
  given blobs. The decrypter accepts the ciphertext \<open>[1]\<close> only.
\<close>

definition sample_url :: parsed_url where
  "sample_url = \<lparr>url_String = ''https://interact.sh'', url_Host = ''interact.sh''\<rparr>"

definition sample_decrypt :: HybridDecrypt where
  "sample_decrypt data = (if data = [1] then Inr [2] else Inl (Failure ''decryption failed''))"

definition sample_env :: "int \<Rightarrow> bytes list \<Rightarrow> env" where
  "sample_env status blobs =
     \<lparr>url_Parse = (\<lambda>s. if s = ''https://interact.sh'' then Inr sample_url
                        else Inl (Failure ''parse'')),
      uuid_New = ''secret'',
      xid_New = ''c3k1ovv3c37g00cm5bsg'',
      keyset_NewHandle = Inr (Handle [5]),
      hybrid_NewHybridDecrypt = (\<lambda>h. Inr sample_decrypt),
      Handle_Public = (\<lambda>h. Inr (Handle [6])),
      insecurecleartextkeyset_Write = (\<lambda>h. Inr (Keyset [6])),
      XXX_Marshal = (\<lambda>k. Inr [7]),
      Marshal_RegisterRequest = (\<lambda>r. Inr (PublicKey r @ [8])),
      Marshal_DeregisterRequest = (\<lambda>r. Inr [9, of_nat (length (dereg_CorrelationID r))]),
      NewRequest_error = (\<lambda>method u. None),
      httpClient_Do = (\<lambda>req. Inr \<lparr>StatusCode = status, Body = [10]\<rparr>),
      Decode_PollResponse = (\<lambda>body. Inr \<lparr>Data = blobs\<rparr>),
      Unmarshal_Interaction = (\<lambda>plaintext. if plaintext = [2] then Inr (Interaction ''dns'')
                                            else Inl (Failure ''json''))\<rparr>"

definition sample_options :: Options where
  "sample_options = \<lparr>ServerURL = ''https://interact.sh'', PersistentSession = False\<rparr>"

definition sample_client :: Client where
  "sample_client =
     \<lparr>correlationID = ''c3k1ovv3c37g00cm5bsg'', secretKey = ''secret'',
      serverURL = sample_url, decrypter = Some sample_decrypt, quitChan = NilChan,
      persistentSession = False\<rparr>"

section \<open>Construction\<close>

lemma generateRSAKeyPair_fields:
  "generateRSAKeyPair env c = (c', e, sent) \<Longrightarrow>
   correlationID c' = correlationID c \<and> secretKey c' = secretKey c \<and>
   serverURL c' = serverURL c \<and> quitChan c' = quitChan c \<and>
   persistentSession c' = persistentSession c"
  by (auto simp: generateRSAKeyPair_def Let_def split: sum.splits if_splits)

lemma New_quitChan: "New env options = (Some c, e, sent) \<Longrightarrow> quitChan c = NilChan"
  by (auto simp: New_def Let_def split: sum.splits prod.splits option.splits
      dest!: generateRSAKeyPair_fields)

text \<open>\<open>New\<close> returns a client exactly when it returns no error.\<close>

lemma New_client_or_error:
  "New env options = (r, e, sent) \<Longrightarrow> (r = None) = (e \<noteq> None)"
  by (auto simp: New_def Wrap_def Let_def split: sum.splits prod.splits option.splits)

text \<open>
  When every local step succeeds and the register call returns a response,
  \<open>New\<close> returns the client and no error, whatever the status of the
  response.
\<close>

lemma New_any_status:
  assumes "url_Parse env (ServerURL options) = Inr parsed"
    and "keyset_NewHandle env = Inr khPriv"
    and "hybrid_NewHybridDecrypt env khPriv = Inr hdec"
    and "Handle_Public env khPriv = Inr khPub"
    and "insecurecleartextkeyset_Write env khPub = Inr keyset"
    and "XXX_Marshal env keyset = Inr key"
    and "Marshal_RegisterRequest env
           \<lparr>PublicKey = key, SecretKey = uuid_New env, CorrelationID = xid_New env\<rparr> = Inr data"
    and "NewRequest_error env ''POST'' (url_String parsed @ ''/register'') = None"
    and "httpClient_Do env
           \<lparr>req_Method = ''POST'', req_URL = url_String parsed @ ''/register'',
            req_Body = Some data, req_ContentLength = int (length data)\<rparr> = Inr resp"
  shows "fst (New env options) =
           Some \<lparr>correlationID = xid_New env, secretKey = uuid_New env, serverURL = parsed,
                 decrypter = Some hdec, quitChan = NilChan,
                 persistentSession = PersistentSession options\<rparr> \<and>
         fst (snd (New env options)) = None"
  using assms by (simp add: New_def generateRSAKeyPair_def NewRequest_def Wrap_def Let_def)

text \<open>
  C1. \<open>New\<close> is claimed to fail if and only if the server address does not
  parse, the keypair cannot be generated or exported, or the register call
  has a transport error or a status other than 200, and then to return an
  error and no client. Here the code is run where every local step succeeds
  and the server answers the register call with status 401: \<open>New\<close> returns a
  client and a nil error, because \<open>errors.Wrap\<close> is given the nil error of
  \<open>Do\<close> and returns nil.
\<close>

theorem New_register_status_401:
  "New (sample_env 401 []) sample_options =
     (Some sample_client, None,
      [\<lparr>req_Method = ''POST'', req_URL = ''https://interact.sh/register'',
        req_Body = Some [7, 8], req_ContentLength = 2\<rparr>])"
  by (simp add: New_def generateRSAKeyPair_def sample_env_def sample_options_def
      sample_client_def NewRequest_def Wrap_def sample_url_def)

section \<open>Teardown\<close>

text \<open>
  C2. \<open>Close\<close> on a client that is not persistent is claimed to return an
  error whenever the deregister call has a transport error or a status other
  than 200. Here the code is run where the server answers the deregister call
  with status 404: \<open>Close\<close> returns nil, again through \<open>errors.Wrap\<close> of a nil
  error.
\<close>

theorem Close_deregister_status_404:
  "Close (sample_env 404 []) sample_client =
     (None,
      [\<lparr>req_Method = ''POST'', req_URL = ''https://interact.sh/deregister'',
        req_Body = Some [9, 20], req_ContentLength = 2\<rparr>])"
  by (simp add: Close_def sample_env_def sample_client_def NewRequest_def Wrap_def
      sample_url_def)

text \<open>A transport error of the deregister call does reach the caller.\<close>

lemma Close_transport_error:
  assumes "\<not> persistentSession c"
    and "Marshal_DeregisterRequest env (DeregisterRequest (correlationID c)) = Inr data"
    and "NewRequest env ''POST'' (url_String (serverURL c) @ ''/deregister'') (Some data) = Inr req"
    and "httpClient_Do env (req\<lparr>req_ContentLength := int (length data)\<rparr>) = Inl err"
  shows "fst (Close env c) = Some (Wrapped err ''could not make deregister request'')"
  using assms by (simp add: Close_def Wrap_def)

text \<open>
  When the deregister request cannot be marshalled or built, \<open>Close\<close> hands
  nothing to the HTTP client and returns the error.
\<close>

lemma Close_request_not_built:
  assumes "\<not> persistentSession c"
    and "isl (Marshal_DeregisterRequest env (DeregisterRequest (correlationID c))) \<or>
         NewRequest_error env ''POST'' (url_String (serverURL c) @ ''/deregister'') \<noteq> None"
  shows "snd (Close env c) = [] \<and> fst (Close env c) \<noteq> None"
  using assms
  by (auto simp: Close_def NewRequest_def Wrap_def isl_def split: sum.splits option.splits)

text \<open>
  C6. \<open>Close\<close> on a client with a persistent session hands no request to the
  HTTP client and returns no error. \<open>Close\<close> on any other client, when the
  deregister request marshals to \<open>data\<close> and the request can be built, hands
  exactly one request to the HTTP client: a POST to the server address
  followed by \<open>/deregister\<close>, whose body is \<open>data\<close>, the marshalled
  \<open>DeregisterRequest\<close> holding the client's correlation id.
\<close>

theorem Close_deregisters_once:
  "(persistentSession c \<longrightarrow> Close env c = (None, [])) \<and>
   (\<not> persistentSession c \<and>
    Marshal_DeregisterRequest env (DeregisterRequest (correlationID c)) = Inr data \<and>
    NewRequest_error env ''POST'' (url_String (serverURL c) @ ''/deregister'') = None \<longrightarrow>
    snd (Close env c) =
      [\<lparr>req_Method = ''POST'', req_URL = url_String (serverURL c) @ ''/deregister'',
        req_Body = Some data, req_ContentLength = int (length data)\<rparr>])"
  by (simp add: Close_def NewRequest_def Let_def split: sum.splits)

theorem Close_deregisters_once_witness:
  "Close (sample_env 200 []) (sample_client\<lparr>persistentSession := True\<rparr>) = (None, []) \<and>
   snd (Close (sample_env 200 []) sample_client) =
     [\<lparr>req_Method = ''POST'', req_URL = ''https://interact.sh/deregister'',
       req_Body = Some [9, 20], req_ContentLength = 2\<rparr>]"
proof -
  have "persistentSession (sample_client\<lparr>persistentSession := True\<rparr>)"
    by simp
  then have "Close (sample_env 200 []) (sample_client\<lparr>persistentSession := True\<rparr>) = (None, [])"
    using Close_deregisters_once by blast
  moreover have "\<not> persistentSession sample_client"
    and "Marshal_DeregisterRequest (sample_env 200 [])
           (DeregisterRequest (correlationID sample_client)) = Inr [9, 20]"
    and "NewRequest_error (sample_env 200 []) ''POST''
           (url_String (serverURL sample_client) @ ''/deregister'') = None"
    by (simp_all add: sample_client_def sample_env_def)
  then have "snd (Close (sample_env 200 []) sample_client) =
      [\<lparr>req_Method = ''POST'', req_URL = url_String (serverURL sample_client) @ ''/deregister'',
        req_Body = Some [9, 20], req_ContentLength = int (length [9 :: byte, 20])\<rparr>]"
    using Close_deregisters_once [of sample_client "sample_env 200 []" "[9, 20]"] by blast
  ultimately show ?thesis
    by (simp add: sample_client_def sample_url_def)
qed

section \<open>Polling\<close>

lemma deliver_map_filter:
  "deliver (Some dec) env blobs called =
     Inr (called @ List.map_filter (decode_blob dec env) blobs)"
  by (induction blobs arbitrary: called)
     (auto simp: decode_blob_def List.map_filter_simps split: sum.splits)

text \<open>
  C4. When the poll has been fetched and decoded into \<open>response\<close>, the
  callback is called with exactly the interactions that the blobs of
  \<open>response.Data\<close> decode to, one call per blob that decrypts and parses, in
  the order of the blobs; a blob that fails to decrypt or to parse is passed
  over and the loop goes on. For a batch of one corrupt and one valid blob, in
  either order, the callback is called once, with the valid one.
\<close>

theorem getInteractions_decodes_in_order:
  assumes "decrypter c = Some dec"
    and "NewRequest env ''GET'' (url_String (serverURL c) @ ''/poll?id='' @ correlationID c @
           ''&secret='' @ secretKey c) None = Inr req"
    and "httpClient_Do env req = Inr resp"
    and "StatusCode resp = 200"
    and "Decode_PollResponse env (Body resp) = Inr response"
  shows "snd (getInteractions env c) =
           Inr (List.map_filter (decode_blob dec env) (Data response)) \<and>
         (\<forall>corrupt valid interaction.
            Data response = [corrupt, valid] \<and> decode_blob dec env corrupt = None \<and>
            decode_blob dec env valid = Some interaction \<longrightarrow>
            snd (getInteractions env c) = Inr [interaction]) \<and>
         (\<forall>corrupt valid interaction.
            Data response = [valid, corrupt] \<and> decode_blob dec env corrupt = None \<and>
            decode_blob dec env valid = Some interaction \<longrightarrow>
            snd (getInteractions env c) = Inr [interaction])"
proof -
  have main: "snd (getInteractions env c) =
      Inr (List.map_filter (decode_blob dec env) (Data response))"
    using assms by (simp add: getInteractions_def deliver_map_filter)
  show ?thesis
    unfolding main by (simp add: List.map_filter_simps)
qed

theorem getInteractions_decodes_in_order_witness:
  "decode_blob sample_decrypt (sample_env 200 [[3], [1], [4], [1]]) [3] = None \<and>
   decode_blob sample_decrypt (sample_env 200 [[3], [1], [4], [1]]) [1] = Some (Interaction ''dns'') \<and>
   snd (getInteractions (sample_env 200 [[3], [1], [4], [1]]) sample_client) =
     Inr [Interaction ''dns'', Interaction ''dns''] \<and>
   snd (getInteractions (sample_env 200 [[3], [1]]) sample_client) = Inr [Interaction ''dns'']"
proof -
  let ?req = "\<lparr>req_Method = ''GET'',
      req_URL = ''https://interact.sh/poll?id=c3k1ovv3c37g00cm5bsg&secret=secret'',
      req_Body = None, req_ContentLength = 0\<rparr>"
  let ?resp = "\<lparr>StatusCode = 200, Body = [10]\<rparr>"
  have pre: "decrypter sample_client = Some sample_decrypt"
    "NewRequest (sample_env 200 blobs) ''GET'' (url_String (serverURL sample_client) @ ''/poll?id='' @
       correlationID sample_client @ ''&secret='' @ secretKey sample_client) None = Inr ?req"
    "httpClient_Do (sample_env 200 blobs) ?req = Inr ?resp"
    "StatusCode ?resp = 200"
    "Decode_PollResponse (sample_env 200 blobs) (Body ?resp) = Inr \<lparr>Data = blobs\<rparr>" for blobs
    by (simp_all add: sample_client_def sample_env_def sample_url_def NewRequest_def)
  have d: "decode_blob sample_decrypt (sample_env 200 blobs) [3] = None"
    "decode_blob sample_decrypt (sample_env 200 blobs) [4] = None"
    "decode_blob sample_decrypt (sample_env 200 blobs) [1] = Some (Interaction ''dns'')" for blobs
    by (simp_all add: decode_blob_def sample_decrypt_def sample_env_def)
  have "snd (getInteractions (sample_env 200 blobs) sample_client) =
      Inr (List.map_filter (decode_blob sample_decrypt (sample_env 200 blobs)) (Data \<lparr>Data = blobs\<rparr>))"
    for blobs
    using getInteractions_decodes_in_order [OF pre, of blobs] by blast
  then show ?thesis
    by (simp add: d List.map_filter_simps)
qed

text \<open>
  C8. A tick builds the request \<open>GET {server}/poll?id={correlationID}&secret={secretKey}\<close>
  with no body, and no other request is handed to the HTTP client. When
  the request cannot be built, when the call fails, when the status is not
  200 or when the body does not decode, the callback is not called at all and
  \<open>getInteractions\<close> returns normally; it has no error result.
\<close>

theorem getInteractions_fetch:
  fixes env :: env and c :: Client
  defines "address \<equiv> url_String (serverURL c) @ ''/poll?id='' @ correlationID c @
                       ''&secret='' @ secretKey c"
  defines "req \<equiv> \<lparr>req_Method = ''GET'', req_URL = address, req_Body = None,
                    req_ContentLength = 0\<rparr>"
  shows "(fst (getInteractions env c) = [] \<or> fst (getInteractions env c) = [req]) \<and>
         (NewRequest_error env ''GET'' address = None \<longrightarrow>
            fst (getInteractions env c) = [req]) \<and>
         (NewRequest_error env ''GET'' address \<noteq> None \<longrightarrow>
            getInteractions env c = ([], Inr [])) \<and>
         (NewRequest_error env ''GET'' address = None \<and> isl (httpClient_Do env req) \<longrightarrow>
            getInteractions env c = ([req], Inr [])) \<and>
         (\<forall>resp. NewRequest_error env ''GET'' address = None \<and>
            httpClient_Do env req = Inr resp \<and> StatusCode resp \<noteq> 200 \<longrightarrow>
            getInteractions env c = ([req], Inr [])) \<and>
         (\<forall>resp. NewRequest_error env ''GET'' address = None \<and>
            httpClient_Do env req = Inr resp \<and> isl (Decode_PollResponse env (Body resp)) \<longrightarrow>
            getInteractions env c = ([req], Inr []))"
  unfolding address_def req_def
  by (auto simp: getInteractions_def NewRequest_def isl_def split: option.splits sum.splits)

theorem getInteractions_fetch_witness:
  "getInteractions (sample_env 503 [[1]]) sample_client =
     ([\<lparr>req_Method = ''GET'',
        req_URL = ''https://interact.sh/poll?id=c3k1ovv3c37g00cm5bsg&secret=secret'',
        req_Body = None, req_ContentLength = 0\<rparr>], Inr []) \<and>
   getInteractions ((sample_env 200 [[1]])\<lparr>NewRequest_error := \<lambda>method u. Some (Failure ''url'')\<rparr>)
     sample_client = ([], Inr [])"
proof -
  let ?address = "url_String (serverURL sample_client) @ ''/poll?id='' @
      correlationID sample_client @ ''&secret='' @ secretKey sample_client"
  let ?req = "\<lparr>req_Method = ''GET'', req_URL = ?address, req_Body = None, req_ContentLength = 0\<rparr>"
  let ?resp = "\<lparr>StatusCode = 503, Body = [10]\<rparr>"
  let ?broken = "(sample_env 200 [[1]])\<lparr>NewRequest_error := \<lambda>method u. Some (Failure ''url'')\<rparr>"
  have "NewRequest_error (sample_env 503 [[1]]) ''GET'' ?address = None \<and>
        httpClient_Do (sample_env 503 [[1]]) ?req = Inr ?resp \<and> StatusCode ?resp \<noteq> 200"
    by (simp add: sample_env_def)
  then have 1: "getInteractions (sample_env 503 [[1]]) sample_client = ([?req], Inr [])"
    using getInteractions_fetch [of "sample_env 503 [[1]]" sample_client] by blast
  have "NewRequest_error ?broken ''GET'' ?address \<noteq> None"
    by simp
  then have 2: "getInteractions ?broken sample_client = ([], Inr [])"
    using getInteractions_fetch [of ?broken sample_client] by blast
  show ?thesis
    unfolding 1 2 by (simp add: sample_client_def sample_url_def)
qed

section \<open>The quit channel\<close>

lemma invoke_keeps_nil:
  assumes "invoke x s = Inr s'" and "\<And>d. x \<noteq> CallStartPolling d"
    and "quitChan (fst s) = NilChan"
  shows "quitChan (fst s') = NilChan"
  using assms
  by (cases x; cases s) (auto simp: StopPolling_def split: sum.splits chan.splits)

lemma invoke_keeps_closed:
  assumes "invoke x s = Inr s'" and "\<And>d. x \<noteq> CallStartPolling d"
    and "quitChan (fst s) = ClosedChan"
  shows "quitChan (fst s') = ClosedChan"
  using assms
  by (cases x; cases s) (auto simp: StopPolling_def split: sum.splits chan.splits)

lemma invoke_all_keeps_nil:
  "invoke_all xs s = Inr s' \<Longrightarrow> \<forall>x\<in>set xs. \<forall>d. x \<noteq> CallStartPolling d \<Longrightarrow>
   quitChan (fst s) = NilChan \<Longrightarrow> quitChan (fst s') = NilChan"
proof (induction xs arbitrary: s)
  case Nil
  then show ?case by simp
next
  case (Cons x xs)
  from Cons.prems(1) obtain s1
    where s1: "invoke x s = Inr s1" and rest: "invoke_all xs s1 = Inr s'"
    by (auto split: sum.splits)
  have "quitChan (fst s1) = NilChan"
    using invoke_keeps_nil [OF s1] Cons.prems by simp
  then show ?case using Cons.IH [OF rest] Cons.prems by simp
qed

lemma invoke_all_keeps_closed:
  "invoke_all xs s = Inr s' \<Longrightarrow> \<forall>x\<in>set xs. \<forall>d. x \<noteq> CallStartPolling d \<Longrightarrow>
   quitChan (fst s) = ClosedChan \<Longrightarrow> quitChan (fst s') = ClosedChan"
proof (induction xs arbitrary: s)
  case Nil
  then show ?case by simp
next
  case (Cons x xs)
  from Cons.prems(1) obtain s1
    where s1: "invoke x s = Inr s1" and rest: "invoke_all xs s1 = Inr s'"
    by (auto split: sum.splits)
  have "quitChan (fst s1) = ClosedChan"
    using invoke_keeps_closed [OF s1] Cons.prems by simp
  then show ?case using Cons.IH [OF rest] Cons.prems by simp
qed

text \<open>
  C10. \<open>StopPolling\<close> is not guarded. On a client as \<open>New\<close> returned it, also
  after any calls other than \<open>StartPolling\<close>, it closes a nil channel and
  panics. After a \<open>StopPolling\<close> that returned, also with calls other than
  \<open>StartPolling\<close> in between, a second \<open>StopPolling\<close> closes a closed
  channel and panics.
\<close>

theorem StopPolling_unguarded:
  assumes "\<forall>x\<in>set calls. \<forall>d. x \<noteq> CallStartPolling d"
    and "invoke_all calls (c, n) = Inr (c', n')"
  shows "(New env options = (Some c, e, sent) \<longrightarrow> StopPolling c' = Inl CloseOfNilChannel) \<and>
         (StopPolling c0 = Inr c \<longrightarrow> StopPolling c' = Inl CloseOfClosedChannel)"
proof (intro conjI impI)
  assume "New env options = (Some c, e, sent)"
  then have "quitChan c = NilChan" by (rule New_quitChan)
  then have "quitChan c' = NilChan"
    using invoke_all_keeps_nil [OF assms(2) assms(1)] by simp
  then show "StopPolling c' = Inl CloseOfNilChannel" by (simp add: StopPolling_def)
next
  assume "StopPolling c0 = Inr c"
  then have "quitChan c = ClosedChan"
    by (auto simp: StopPolling_def split: chan.splits)
  then have "quitChan c' = ClosedChan"
    using invoke_all_keeps_closed [OF assms(2) assms(1)] by simp
  then show "StopPolling c' = Inl CloseOfClosedChannel" by (simp add: StopPolling_def)
qed

theorem StopPolling_unguarded_witness:
  "invoke_all [CallURL 1700000000, CallClose (sample_env 200 [])] (sample_client, 0) =
     Inr (sample_client, 1) \<and>
   StopPolling sample_client = Inl CloseOfNilChannel \<and>
   StartPolling 5 sample_client = Inr (sample_client\<lparr>quitChan := OpenChan\<rparr>) \<and>
   StopPolling (sample_client\<lparr>quitChan := OpenChan\<rparr>) =
     Inr (sample_client\<lparr>quitChan := ClosedChan\<rparr>) \<and>
   StopPolling (sample_client\<lparr>quitChan := ClosedChan\<rparr>) = Inl CloseOfClosedChannel"
proof -
  let ?calls = "[CallURL 1700000000, CallClose (sample_env 200 [])]"
  have calls: "\<forall>x\<in>set ?calls. \<forall>d. x \<noteq> CallStartPolling d"
    by simp
  have run: "invoke_all ?calls (sample_client, 0) = Inr (sample_client, 1)"
    by (simp add: URL_def Let_def)
  have new: "New (sample_env 200 []) sample_options =
      (Some sample_client, None,
       [\<lparr>req_Method = ''POST'', req_URL = ''https://interact.sh/register'',
         req_Body = Some [7, 8], req_ContentLength = 2\<rparr>])"
    by (simp add: New_def generateRSAKeyPair_def sample_env_def sample_options_def
        sample_client_def NewRequest_def Wrap_def sample_url_def)
  have 1: "StopPolling sample_client = Inl CloseOfNilChannel"
    using StopPolling_unguarded [OF calls run] new by blast
  have start: "StartPolling 5 sample_client = Inr (sample_client\<lparr>quitChan := OpenChan\<rparr>)"
    by (simp add: StartPolling_def)
  have stop: "StopPolling (sample_client\<lparr>quitChan := OpenChan\<rparr>) =
      Inr (sample_client\<lparr>quitChan := ClosedChan\<rparr>)"
    by (simp add: StopPolling_def)
  have none: "\<forall>x\<in>set []. \<forall>d. x \<noteq> CallStartPolling d"
    by simp
  have idle: "invoke_all [] (sample_client\<lparr>quitChan := ClosedChan\<rparr>, 0) =
      Inr (sample_client\<lparr>quitChan := ClosedChan\<rparr>, 0)"
    by simp
  have 2: "StopPolling (sample_client\<lparr>quitChan := ClosedChan\<rparr>) = Inl CloseOfClosedChannel"
    using StopPolling_unguarded [OF none idle] stop by blast
  show ?thesis
    using run 1 start stop 2 by blast
qed

section \<open>Identifiers\<close>

subsection \<open>The encoding\<close>

lemma foldl_bits_acc:
  "foldl (\<lambda>n b. 2 * n + (if b then 1 else 0)) a bs = a * 2 ^ length bs + bitval bs"
proof (induction bs rule: rev_induct)
  case Nil then show ?case by (simp add: bitval_def)
next
  case (snoc b bs) then show ?case by (simp add: bitval_def algebra_simps)
qed

lemma bitval_append: "bitval (xs @ ys) = bitval xs * 2 ^ length ys + bitval ys"
proof -
  have "bitval (xs @ ys) = foldl (\<lambda>n b. 2 * n + (if b then 1 else 0)) (bitval xs) ys"
    by (simp add: bitval_def)
  then show ?thesis by (simp add: foldl_bits_acc)
qed

lemma bitval_Nil: "bitval [] = 0"
  by (simp add: bitval_def)

lemma bitval_bound: "bitval bs < 2 ^ length bs"
proof (induction bs rule: rev_induct)
  case Nil then show ?case by (simp add: bitval_Nil)
next
  case (snoc b bs)
  have "bitval (bs @ [b]) = 2 * bitval bs + (if b then 1 else 0)"
    by (simp add: bitval_def)
  with snoc show ?case by (auto split: if_splits)
qed

lemma length_bits_of: "length (bits_of k n) = k"
  by (induction k arbitrary: n) auto

lemma bitval_bits_of: "bitval (bits_of k n) = n mod 2 ^ k"
proof (induction k arbitrary: n)
  case 0 then show ?case by (simp add: bitval_Nil)
next
  case (Suc k)
  have "bitval (bits_of (Suc k) n) = 2 * (n div 2 mod 2 ^ k) + n mod 2"
    using Suc.IH [of "n div 2"] by (simp add: bitval_append bitval_def odd_iff_mod_2_eq_one)
  also have "\<dots> = n mod 2 ^ Suc k"
    by (simp add: mod_mult2_eq)
  finally show ?case .
qed

lemma length_byte_bits: "length (byte_bits b) = 8"
  by (simp add: byte_bits_def length_bits_of)

lemma bitval_byte_bits: "bitval (byte_bits b) = unat b"
proof -
  have "unat b < 2 ^ 8" using unsigned_less [of b, where ?'a = nat] by simp
  then show ?thesis by (simp add: byte_bits_def bitval_bits_of)
qed

lemma bitval_bytes:
  "bitval (concat (map byte_bits src)) = foldl (\<lambda>v b. 256 * v + unat b) 0 src"
proof (induction src rule: rev_induct)
  case Nil then show ?case by (simp add: bitval_Nil)
next
  case (snoc b src) then show ?case
    by (simp add: bitval_append length_byte_bits bitval_byte_bits)
qed

lemma length_bits_bytes: "length (concat (map byte_bits src)) = 8 * length src"
  by (induction src) (auto simp: length_byte_bits)

lemma quintets_length5: "q \<in> set (quintets bs) \<Longrightarrow> length q = 5"
  by (induction bs arbitrary: q rule: quintets.induct) auto

lemma quintets_concat: "length bs mod 5 = 4 \<Longrightarrow> concat (quintets bs) = bs @ [False]"
  by (induction bs rule: quintets.induct) auto

lemma length_quintets: "length (quintets bs) = (length bs + 4) div 5"
  by (induction bs rule: quintets.induct) auto

lemma digits_value:
  "\<forall>q\<in>set qs. length q = 5 \<Longrightarrow>
   foldl (\<lambda>v d. 32 * v + d) 0 (map bitval qs) = bitval (concat qs)"
proof (induction qs rule: rev_induct)
  case Nil then show ?case by (simp add: bitval_Nil)
next
  case (snoc q qs) then show ?case by (simp add: bitval_append)
qed

lemma zbase32_digits_bound: "d \<in> set (zbase32_digits src) \<Longrightarrow> d < 32"
proof -
  assume "d \<in> set (zbase32_digits src)"
  then obtain q where "q \<in> set (quintets (concat (map byte_bits src)))" and d: "d = bitval q"
    by (auto simp: zbase32_digits_def)
  then have "length q = 5" by (simp add: quintets_length5)
  then show ?thesis using bitval_bound [of q] d by simp
qed

lemma zbase32_digits_8:
  assumes "length src = 8"
  shows "foldl (\<lambda>v d. 32 * v + d) 0 (zbase32_digits src) = 2 * foldl (\<lambda>v b. 256 * v + unat b) 0 src"
    and "length (zbase32_digits src) = 13"
proof -
  let ?bits = "concat (map byte_bits src)"
  have len: "length ?bits = 64" using assms by (simp add: length_bits_bytes)
  then have "concat (quintets ?bits) = ?bits @ [False]"
    by (simp add: quintets_concat)
  then have "bitval (concat (quintets ?bits)) = 2 * bitval ?bits"
    by (simp add: bitval_append bitval_def)
  then show "foldl (\<lambda>v d. 32 * v + d) 0 (zbase32_digits src) = 2 * foldl (\<lambda>v b. 256 * v + unat b) 0 src"
    by (simp add: zbase32_digits_def digits_value quintets_length5 bitval_bytes)
  show "length (zbase32_digits src) = 13"
    using len by (simp add: zbase32_digits_def length_quintets)
qed

text \<open>Two published z-base-32 test vectors.\<close>

lemma EncodeToString_vectors:
  "EncodeToString [0xF0, 0xBF, 0xC7] = ''6n9hq''"
  "EncodeToString [0xD4, 0x7A, 0x04] = ''4t7ye''"
  by code_simp+

lemma unat_byte_shift:
  "unat (ucast (drop_bit k (v :: 32 word)) :: byte) = unat v div 2 ^ k mod 256"
proof -
  have "unat (ucast (drop_bit k v) :: byte) = take_bit 8 (unat (drop_bit k v))"
    by (simp add: unsigned_ucast_eq)
  also have "\<dots> = take_bit 8 (drop_bit k (unat v))"
    by (simp only: unat_drop_bit_eq)
  also have "\<dots> = unat v div 2 ^ k mod 256"
    by (simp only: take_bit_eq_mod drop_bit_eq_div) simp
  finally show ?thesis .
qed

lemma unat_byte_low: "unat (ucast (v :: 32 word) :: byte) = unat v mod 256"
  by (simp add: unsigned_ucast_eq take_bit_eq_mod)

lemma be_value:
  fixes n :: nat
  assumes "n < 2 ^ 32"
  shows "256 * (256 * (256 * (n div 2 ^ 24 mod 256) + n div 2 ^ 16 mod 256) + n div 2 ^ 8 mod 256) + n mod 256 = n"
proof -
  have "n div 2 ^ 24 < 256"
    using assms by (simp add: less_mult_imp_div_less)
  then have d24: "n div 2 ^ 24 mod 256 = n div 2 ^ 24"
    by (rule mod_less)
  have s16: "n div 2 ^ 16 div 256 = n div 2 ^ 24"
    by (simp add: div_mult2_eq [symmetric])
  have s8: "n div 2 ^ 8 div 256 = n div 2 ^ 16"
    by (simp add: div_mult2_eq [symmetric])
  have s0: "n div 256 = n div 2 ^ 8"
    by simp
  have e16: "256 * (n div 2 ^ 24) + n div 2 ^ 16 mod 256 = n div 2 ^ 16"
    using mult_div_mod_eq [of 256 "n div 2 ^ 16"] by (simp only: s16)
  have e8: "256 * (n div 2 ^ 16) + n div 2 ^ 8 mod 256 = n div 2 ^ 8"
    using mult_div_mod_eq [of 256 "n div 2 ^ 8"] by (simp only: s8)
  have e0: "256 * (n div 2 ^ 8) + n mod 256 = n"
    using mult_div_mod_eq [of 256 n] by (simp only: s0)
  show ?thesis
    by (simp only: d24 e16 e8 e0)
qed

lemma random_bytes:
  "PutUint32 (PutUint32 (replicate 8 0) 0 t) 4 i =
     [ucast (drop_bit 24 t), ucast (drop_bit 16 t), ucast (drop_bit 8 t), ucast t,
      ucast (drop_bit 24 i), ucast (drop_bit 16 i), ucast (drop_bit 8 i), ucast i]"
proof -
  have "replicate 8 (0 :: byte) = [0, 0, 0, 0, 0, 0, 0, 0]"
    by (simp add: numeral_eq_Suc)
  then show ?thesis by (simp add: PutUint32_def)
qed

lemma random_unat:
  "map unat (PutUint32 (PutUint32 (replicate 8 0) 0 t) 4 i) =
     [unat t div 2 ^ 24 mod 256, unat t div 2 ^ 16 mod 256, unat t div 2 ^ 8 mod 256, unat t mod 256,
      unat i div 2 ^ 24 mod 256, unat i div 2 ^ 16 mod 256, unat i div 2 ^ 8 mod 256, unat i mod 256]"
  by (simp only: random_bytes list.map unat_byte_shift) (simp only: unat_byte_low)

lemma alphabet_length: "length alphabet = 32"
  by (simp add: alphabet_def)

lemma alphabet_distinct: "distinct alphabet"
  by (simp add: alphabet_def)

lemma alphabet_chars: "set alphabet \<subseteq> set ''abcdefghijklmnopqrstuvwxyz0123456789''"
  by (simp add: alphabet_def)

lemma encode_digits_inj:
  assumes "EncodeToString a = EncodeToString b"
  shows "zbase32_digits a = zbase32_digits b"
proof -
  have "inj_on ((!) alphabet) {..<32}"
    using alphabet_distinct alphabet_length
    by (auto simp: inj_on_def nth_eq_iff_index_eq)
  moreover have "set (zbase32_digits a) \<union> set (zbase32_digits b) \<subseteq> {..<32}"
    using zbase32_digits_bound by auto
  ultimately have "inj_on ((!) alphabet) (set (zbase32_digits a) \<union> set (zbase32_digits b))"
    by (rule inj_on_subset)
  then show ?thesis
    using assms by (simp add: EncodeToString_def inj_on_map_eq_map)
qed

lemma shift_four_bytes:
  fixes a :: nat
  shows "256 * (256 * (256 * (256 * a + b3) + b2) + b1) + b0 =
         a * 2 ^ 32 + (256 * (256 * (256 * b3 + b2) + b1) + b0)"
  by simp

lemma random_value:
  "foldl (\<lambda>v b. 256 * v + unat b) 0 (PutUint32 (PutUint32 (replicate 8 0) 0 t) 4 i) = unat t * 2 ^ 32 + unat i"
proof -
  have t: "unat t < 2 ^ 32" and i: "unat i < 2 ^ 32"
    using unsigned_less [of t, where ?'a = nat] unsigned_less [of i, where ?'a = nat] by simp_all
  have "foldl (\<lambda>v b. 256 * v + unat b) 0 (PutUint32 (PutUint32 (replicate 8 0) 0 t) 4 i) =
        foldl (\<lambda>v d. 256 * v + d) 0 (map unat (PutUint32 (PutUint32 (replicate 8 0) 0 t) 4 i))"
    by (simp add: foldl_map)
  also have "\<dots> = 256 * (256 * (256 * (256 *
        (256 * (256 * (256 * (unat t div 2 ^ 24 mod 256) + unat t div 2 ^ 16 mod 256) + unat t div 2 ^ 8 mod 256) + unat t mod 256)
        + unat i div 2 ^ 24 mod 256) + unat i div 2 ^ 16 mod 256) + unat i div 2 ^ 8 mod 256) + unat i mod 256"
    by (simp only: random_unat foldl.simps mult_0_right add_0_left)
  also have "\<dots> = unat t * 2 ^ 32 + unat i"
    by (simp only: be_value [OF t] shift_four_bytes be_value [OF i])
  finally show ?thesis .
qed

lemma length_random: "length (PutUint32 (PutUint32 (replicate 8 0) 0 t) 4 i) = 8"
  by (simp add: PutUint32_def)

lemma encode_random_inj:
  assumes "EncodeToString (PutUint32 (PutUint32 (replicate 8 0) 0 t) 4 i) =
           EncodeToString (PutUint32 (PutUint32 (replicate 8 0) 0 t') 4 i')"
  shows "t = t' \<and> i = i'"
proof -
  have i: "unat i < 2 ^ 32" and i': "unat i' < 2 ^ 32"
    using unsigned_less [of i, where ?'a = nat] unsigned_less [of i', where ?'a = nat] by simp_all
  have "zbase32_digits (PutUint32 (PutUint32 (replicate 8 0) 0 t) 4 i) =
        zbase32_digits (PutUint32 (PutUint32 (replicate 8 0) 0 t') 4 i')"
    using assms by (rule encode_digits_inj)
  then have "2 * (unat t * 2 ^ 32 + unat i) = 2 * (unat t' * 2 ^ 32 + unat i')"
    using zbase32_digits_8(1) [OF length_random, of t i] zbase32_digits_8(1) [OF length_random, of t' i']
    by (simp only: random_value)
  then have eq: "unat t * 2 ^ 32 + unat i = unat t' * 2 ^ 32 + unat i'"
    by simp
  have "(unat t * 2 ^ 32 + unat i) div 2 ^ 32 = unat t" "(unat t * 2 ^ 32 + unat i) mod 2 ^ 32 = unat i"
    using i by simp_all
  moreover have "(unat t' * 2 ^ 32 + unat i') div 2 ^ 32 = unat t'" "(unat t' * 2 ^ 32 + unat i') mod 2 ^ 32 = unat i'"
    using i' by simp_all
  ultimately have "unat t = unat t'" "unat i = unat i'"
    using eq by metis+
  then show ?thesis by (simp add: word_unat_eq_iff)
qed

lemma length_encode_random: "length (EncodeToString (PutUint32 (PutUint32 (replicate 8 0) 0 t) 4 i)) = 13"
  using zbase32_digits_8(2) [OF length_random, of t i] by (simp add: EncodeToString_def)

lemma URL_eq:
  "URL c now n =
     (correlationID c @ EncodeToString (PutUint32 (PutUint32 (replicate 8 0) 0 (word_of_int now)) 4 (n + 1))
        @ ''.'' @ url_Host (serverURL c), n + 1)"
  by (simp add: URL_def Let_def)

lemma URL_inj:
  assumes "fst (URL c now n) = fst (URL c' now' n')"
    and "length (correlationID c) = length (correlationID c')"
  shows "n = n'"
proof -
  let ?e = "EncodeToString (PutUint32 (PutUint32 (replicate 8 0) 0 (word_of_int now)) 4 (n + 1))"
  let ?e' = "EncodeToString (PutUint32 (PutUint32 (replicate 8 0) 0 (word_of_int now')) 4 (n' + 1))"
  have "correlationID c @ (?e @ ''.'' @ url_Host (serverURL c)) =
        correlationID c' @ (?e' @ ''.'' @ url_Host (serverURL c'))"
    using assms(1) by (simp add: URL_eq)
  then have "?e @ (''.'' @ url_Host (serverURL c)) = ?e' @ (''.'' @ url_Host (serverURL c'))"
    using assms(2) by simp
  moreover have "length ?e = length ?e'"
    by (simp only: length_encode_random)
  ultimately have "?e = ?e'"
    by simp
  then have "n + 1 = n' + 1"
    using encode_random_inj by blast
  then show ?thesis by simp
qed

lemma length_URLs: "length (URLs calls n) = length calls"
  by (induction calls n rule: URLs.induct) auto

lemma URLs_nth:
  "k < length calls \<Longrightarrow>
   URLs calls n ! k = fst (URL (fst (calls ! k)) (snd (calls ! k)) (n + of_nat k))"
proof (induction calls n arbitrary: k rule: URLs.induct)
  case (1 n) then show ?case by simp
next
  case (2 c now calls n)
  show ?case
  proof (cases k)
    case 0 then show ?thesis by simp
  next
    case (Suc j)
    then have "j < length calls" using "2.prems" by simp
    then show ?thesis using "2.IH" [of j] Suc by (simp add: URL_eq add.assoc add.commute)
  qed
qed


lemma random_as_nat:
  "PutUint32 (PutUint32 (replicate 8 0) 0 t) 4 i =
     map of_nat
       [unat t div 2 ^ 24 mod 256, unat t div 2 ^ 16 mod 256, unat t div 2 ^ 8 mod 256, unat t mod 256,
        unat i div 2 ^ 24 mod 256, unat i div 2 ^ 16 mod 256, unat i div 2 ^ 8 mod 256, unat i mod 256]"
proof -
  have "map of_nat (map unat (PutUint32 (PutUint32 (replicate 8 0) 0 t) 4 i)) =
        PutUint32 (PutUint32 (replicate 8 0) 0 t) 4 i"
    by (simp add: map_idI)
  then show ?thesis by (simp only: random_unat)
qed

lemma unat_time: "unat (word_of_int now :: 32 word) = nat (now mod 2 ^ 32)"
  by (simp add: unsigned_of_int take_bit_eq_mod)

lemma unat_counter: "unat (n + 1 :: 32 word) = (unat n + 1) mod 2 ^ 32"
  by (simp add: unat_word_ariths)

lemma encode_in_alphabet: "set (EncodeToString src) \<subseteq> set alphabet"
  using zbase32_digits_bound [of _ src] by (auto simp: EncodeToString_def alphabet_length)


subsection \<open>Format\<close>

text \<open>
  C7. The string \<open>URL\<close> returns is the correlation id, the z-base-32
  encoding of eight bytes, a dot and the host of the server, in this order.
  The eight bytes are the Unix time in seconds reduced to 32 bits (\<open>T\<close>),
  most significant byte first, followed by the value of the process-wide
  counter after this call's increment (\<open>I\<close>), most significant byte first.
  The encoding has 13 characters, the base-32 digits (most significant first)
  of \<open>2 * (T * 2^32 + I)\<close>, that is of the 64 bits followed by one zero bit,
  each written as the character of the alphabet at that index. The alphabet
  has 32 distinct characters, all lower-case letters or digits: there is no
  padding character and no dot in the encoding.
\<close>

theorem URL_format:
  fixes c :: Client and now :: int and n :: "32 word"
  defines "T \<equiv> nat (now mod 2 ^ 32)"
  defines "I \<equiv> (unat n + 1) mod 2 ^ 32"
  defines "random \<equiv> map of_nat
      [T div 2 ^ 24 mod 256, T div 2 ^ 16 mod 256, T div 2 ^ 8 mod 256, T mod 256,
       I div 2 ^ 24 mod 256, I div 2 ^ 16 mod 256, I div 2 ^ 8 mod 256, I mod 256] :: bytes"
  shows "fst (URL c now n) = correlationID c @ EncodeToString random @ ''.'' @ url_Host (serverURL c) \<and>
         unat (snd (URL c now n)) = I \<and>
         length (EncodeToString random) = 13 \<and>
         EncodeToString random = map ((!) alphabet) (zbase32_digits random) \<and>
         (\<forall>d\<in>set (zbase32_digits random). d < 32) \<and>
         foldl (\<lambda>v d. 32 * v + d) 0 (zbase32_digits random) = 2 * (T * 2 ^ 32 + I) \<and>
         set (EncodeToString random) \<subseteq> set alphabet \<and>
         length alphabet = 32 \<and> distinct alphabet \<and>
         set alphabet \<subseteq> set ''abcdefghijklmnopqrstuvwxyz0123456789''"
proof -
  let ?r = "PutUint32 (PutUint32 (replicate 8 0) 0 (word_of_int now)) 4 (n + 1)"
  have r: "random = ?r"
    unfolding random_def T_def I_def by (simp only: random_as_nat unat_time unat_counter)
  have 1: "fst (URL c now n) = correlationID c @ EncodeToString random @ ''.'' @ url_Host (serverURL c)"
    by (simp add: URL_eq r)
  have 2: "unat (snd (URL c now n)) = I"
    by (simp only: URL_eq snd_conv unat_counter I_def)
  have 3: "length (EncodeToString random) = 13"
    by (simp only: r length_encode_random)
  have 4: "EncodeToString random = map ((!) alphabet) (zbase32_digits random)"
    by (simp add: EncodeToString_def)
  have 5: "\<forall>d\<in>set (zbase32_digits random). d < 32"
    using zbase32_digits_bound by blast
  have "foldl (\<lambda>v d. 32 * v + d) 0 (zbase32_digits ?r) =
        2 * (unat (word_of_int now :: 32 word) * 2 ^ 32 + unat (n + 1))"
    using zbase32_digits_8(1) [OF length_random, of "word_of_int now" "n + 1"]
    by (simp only: random_value)
  then have 6: "foldl (\<lambda>v d. 32 * v + d) 0 (zbase32_digits random) = 2 * (T * 2 ^ 32 + I)"
    by (simp only: r unat_time unat_counter T_def I_def)
  show ?thesis
    using 1 2 3 4 5 6 encode_in_alphabet alphabet_length alphabet_distinct alphabet_chars
    by blast
qed

theorem URL_format_witness:
  "fst (URL sample_client 1700000000 0) = ''c3k1ovv3c37g00cm5bsgcij9nyyyyyyyn.interact.sh'' \<and>
   unat (snd (URL sample_client 1700000000 0)) = 1 \<and>
   length (EncodeToString [101, 83, 241, 0, 0, 0, 0, 1]) = 13 \<and>
   foldl (\<lambda>v d. 32 * v + d) 0 (zbase32_digits [101, 83, 241, 0, 0, 0, 0, 1]) =
     2 * (1700000000 * 2 ^ 32 + 1)"
proof -
  define T :: nat where "T = nat (1700000000 mod 2 ^ 32)"
  define I :: nat where "I = (unat (0 :: 32 word) + 1) mod 2 ^ 32"
  define random :: bytes where "random = map of_nat
      [T div 2 ^ 24 mod 256, T div 2 ^ 16 mod 256, T div 2 ^ 8 mod 256, T mod 256,
       I div 2 ^ 24 mod 256, I div 2 ^ 16 mod 256, I div 2 ^ 8 mod 256, I mod 256]"
  have T: "T = 1700000000" and I: "I = 1"
    by (simp_all add: T_def I_def)
  have r: "random = [101, 83, 241, 0, 0, 0, 0, 1]"
    by (simp add: random_def T I)
  have e: "EncodeToString [101, 83, 241, 0, 0, 0, 0, 1] = ''cij9nyyyyyyyn''"
    by code_simp
  have f: "fst (URL sample_client 1700000000 0) =
             correlationID sample_client @ EncodeToString random @ ''.'' @ url_Host (serverURL sample_client)"
    and u: "unat (snd (URL sample_client 1700000000 0)) = I"
    and l: "length (EncodeToString random) = 13"
    and v: "foldl (\<lambda>v d. 32 * v + d) 0 (zbase32_digits random) = 2 * (T * 2 ^ 32 + I)"
    using URL_format [of sample_client 1700000000 0]
    unfolding T_def [symmetric] I_def [symmetric] random_def [symmetric] by blast+
  have "fst (URL sample_client 1700000000 0) = ''c3k1ovv3c37g00cm5bsgcij9nyyyyyyyn.interact.sh''"
    unfolding f r e by (simp add: sample_client_def sample_url_def)
  moreover have "unat (snd (URL sample_client 1700000000 0)) = 1"
    unfolding u I ..
  moreover have "length (EncodeToString [101, 83, 241, 0, 0, 0, 0, 1]) = 13"
    using l unfolding r .
  moreover have "foldl (\<lambda>v d. 32 * v + d) 0 (zbase32_digits [101, 83, 241, 0, 0, 0, 0, 1]) =
     2 * (1700000000 * 2 ^ 32 + 1)"
    using v unfolding r T I .
  ultimately show ?thesis by blast
qed

subsection \<open>Uniqueness\<close>

text \<open>
  C3, as claimed: any number of calls of \<open>URL\<close> in one process return
  pairwise distinct strings. The counter has 32 bits. Take \<open>2^32 + 1\<close> calls
  of one client: the first when the clock reads 1700000000, the next
  \<open>2^32 - 1\<close> an hour later, and the last after the clock has been set back
  to 1700000000. The last call returns the string of the first.
\<close>

theorem URLs_repeat_counterexample:
  "\<not> distinct
     (URLs ((sample_client, 1700000000) #
            replicate (2 ^ 32 - 1) (sample_client, 1700003600) @
            [(sample_client, 1700000000)]) 0)"
proof
  define k :: nat where "k = 2 ^ 32"
  define calls where "calls =
    (sample_client, 1700000000 :: int) # replicate (k - 1) (sample_client, 1700003600) @
    [(sample_client, 1700000000)]"
  assume "distinct
     (URLs ((sample_client, 1700000000) #
            replicate (2 ^ 32 - 1) (sample_client, 1700003600) @
            [(sample_client, 1700000000)]) 0)"
  then have d: "distinct (URLs calls 0)"
    by (simp only: calls_def k_def)
  have pos: "0 < k"
    by (simp add: k_def)
  have len: "length calls = k + 1"
    using pos by (simp add: calls_def)
  have z: "(of_nat k :: 32 word) = 0"
    by (simp add: k_def)
  have first: "calls ! 0 = (sample_client, 1700000000)"
    by (simp add: calls_def)
  have "calls ! k = (replicate (k - 1) (sample_client, 1700003600 :: int) @
      [(sample_client, 1700000000)]) ! (k - 1)"
    using pos by (simp add: calls_def nth_Cons')
  also have "\<dots> = (sample_client, 1700000000)"
    using nth_append_length [of "replicate (k - 1) (sample_client, 1700003600 :: int)"]
    by simp
  finally have last: "calls ! k = (sample_client, 1700000000)" .
  have "URLs calls 0 ! 0 = URLs calls 0 ! k"
    using URLs_nth [of 0 calls 0] URLs_nth [of k calls 0] len first last by (simp add: z)
  moreover have "0 < length (URLs calls 0)" "k < length (URLs calls 0)" "0 \<noteq> k"
    using pos by (simp_all add: length_URLs len)
  ultimately show False
    using d by (auto simp: distinct_conv_nth)
qed

text \<open>
  C3, amended: up to \<open>2^32\<close> successive calls of \<open>URL\<close> in one process, by
  clients whose correlation ids all have the same length (as the 20
  characters of an xid have, and as the ids of a single client have), return
  pairwise distinct strings, whatever the clock reads at each call and
  whatever the counter was before the first.
\<close>

theorem URLs_distinct:
  assumes "length calls \<le> 2 ^ 32"
    and "\<forall>x\<in>set calls. length (correlationID (fst x)) = l"
  shows "distinct (URLs calls n)"
proof -
  have "URLs calls n ! j \<noteq> URLs calls n ! k" if "j < length calls" "k < length calls" "j \<noteq> k" for j k
  proof
    assume "URLs calls n ! j = URLs calls n ! k"
    then have eq: "fst (URL (fst (calls ! j)) (snd (calls ! j)) (n + of_nat j)) =
                   fst (URL (fst (calls ! k)) (snd (calls ! k)) (n + of_nat k))"
      using that by (simp only: URLs_nth)
    have "length (correlationID (fst (calls ! j))) = length (correlationID (fst (calls ! k)))"
      using assms(2) that by simp
    with eq have "n + of_nat j = n + of_nat k"
      by (rule URL_inj)
    then have "(of_nat j :: 32 word) = of_nat k" by simp
    moreover have "j < 2 ^ 32" "k < 2 ^ 32" using that assms(1) by simp_all
    ultimately have "j = k"
      by (simp add: word_of_nat_eq_iff take_bit_nat_eq_self)
    with that show False by simp
  qed
  then show ?thesis
    by (simp add: distinct_conv_nth length_URLs)
qed


theorem URLs_distinct_witness:
  "length [(sample_client, 1700000000 :: int), (sample_client, 1700000000),
      (sample_client\<lparr>correlationID := ''c3k1ovv3c37g00cm5bt0''\<rparr>, 1699999999)] \<le> (2 ^ 32 :: nat) \<and>
   distinct (URLs [(sample_client, 1700000000), (sample_client, 1700000000),
      (sample_client\<lparr>correlationID := ''c3k1ovv3c37g00cm5bt0''\<rparr>, 1699999999)] 4294967295)"
proof -
  let ?calls = "[(sample_client, 1700000000 :: int), (sample_client, 1700000000),
      (sample_client\<lparr>correlationID := ''c3k1ovv3c37g00cm5bt0''\<rparr>, 1699999999)]"
  have short: "length ?calls \<le> 2 ^ 32"
    by simp
  have ids: "\<forall>x\<in>set ?calls. length (correlationID (fst x)) = 20"
    by (simp add: sample_client_def)
  have "distinct (URLs ?calls 4294967295)"
    using short ids by (rule URLs_distinct)
  with short show ?thesis by (rule conjI)
qed

section \<open>Stopping the poller\<close>

lemma callbacks_append: "callbacks (es @ fs) = callbacks es @ callbacks fs"
  by (induction es rule: callbacks.induct) auto

lemma step_closed:
  assumes "step m s = Some s'" and "quitChan (client s) = ClosedChan"
  shows "quitChan (client s') = ClosedChan"
  using assms
  by (cases m)
     (auto simp: StopPolling_def split: sum.splits poller.splits list.splits if_splits)

lemma run_closed:
  "run ms s = Some s' \<Longrightarrow> quitChan (client s) = ClosedChan \<Longrightarrow>
   quitChan (client s') = ClosedChan"
proof (induction ms arbitrary: s)
  case Nil
  then show ?case by simp
next
  case (Cons m ms)
  from Cons.prems(1) obtain s1
    where s1: "step m s = Some s1" and rest: "run ms s1 = Some s'"
    by (auto split: option.splits)
  from step_closed [OF s1 Cons.prems(2)] Cons.IH [OF rest] show ?case by simp
qed

lemma Stop_closes:
  "step Stop s = Some s' \<Longrightarrow>
   quitChan (client s') = ClosedChan \<and> trace s' = trace s @ [StopPollingReturned]"
  by (auto simp: StopPolling_def split: sum.splits chan.splits)

text \<open>Once the goroutine is gone and the channel closed, no move is left.\<close>

lemma step_after_exit:
  assumes "poller s = Exited" and "quitChan (client s) = ClosedChan"
  shows "step m s = None"
  using assms by (cases m) (simp_all add: StopPolling_def)

lemma run_after_exit:
  assumes "run ms s = Some s'" and "poller s = Exited" and "quitChan (client s) = ClosedChan"
  shows "s' = s"
proof (cases ms)
  case Nil
  with assms(1) show ?thesis by simp
next
  case (Cons m rest)
  with assms(1) step_after_exit [OF assms(2,3), of m] show ?thesis by simp
qed

text \<open>
  C5, as claimed: after \<open>StopPolling\<close> has returned no callback is made.
  \<open>StopPolling\<close> only closes the channel; it does not wait for the goroutine.
  In the first run below a tick is in flight when \<open>StopPolling\<close> runs, and
  its callback is made after \<open>StopPolling\<close> has returned. In the second,
  \<open>StopPolling\<close> returns first; at the \<open>select\<close> both the ticker and the
  closed channel are ready, the ticker's case is taken, and the callback is
  made.
\<close>

theorem callback_after_StopPolling_counterexample:
  "StartPolling 5 sample_client = Inr (sample_client\<lparr>quitChan := OpenChan\<rparr>) \<and>
   map_option trace
     (run [Tick (sample_env 200 [[1]]), Stop, Deliver]
        (polling (sample_client\<lparr>quitChan := OpenChan\<rparr>))) =
     Some [StopPollingReturned, Callback (Interaction ''dns'')] \<and>
   map_option trace
     (run [Stop, Tick (sample_env 200 [[1]]), Deliver]
        (polling (sample_client\<lparr>quitChan := OpenChan\<rparr>))) =
     Some [StopPollingReturned, Callback (Interaction ''dns'')] \<and>
   callback_after_stop [StopPollingReturned, Callback (Interaction ''dns'')]"
  by (simp add: StartPolling_def polling_def getInteractions_def NewRequest_def sample_env_def
      sample_client_def sample_decrypt_def StopPolling_def)

text \<open>
  C5, amended: once \<open>StopPolling\<close> has returned, the quit channel is closed
  and stays closed, so whenever the goroutine is at its \<open>select\<close> the quit
  case is ready. Once the goroutine has taken the quit case, no move is left
  to the process: no tick is taken, whatever the server would answer, and no
  callback is made. Callbacks between the return of \<open>StopPolling\<close> and the
  exit of the goroutine are not excluded.
\<close>

theorem no_callback_after_exit:
  assumes "step Stop s0 = Some s1" and "run ms s1 = Some s2" and "run ms' s2 = Some s3"
  shows "quitChan (client s2) = ClosedChan \<and>
         (poller s2 = AtSelect \<longrightarrow> step Quit s2 = Some (s2\<lparr>poller := Exited\<rparr>)) \<and>
         (poller s2 = Exited \<longrightarrow>
            (\<forall>m. step m s2 = None) \<and> s3 = s2 \<and>
            callbacks (trace s3) = callbacks (trace s2))"
proof -
  have closed: "quitChan (client s2) = ClosedChan"
    using Stop_closes [OF assms(1)] run_closed [OF assms(2)] by simp
  then have quit: "poller s2 = AtSelect \<longrightarrow> step Quit s2 = Some (s2\<lparr>poller := Exited\<rparr>)"
    by simp
  have "(\<forall>m. step m s2 = None) \<and> s3 = s2 \<and> callbacks (trace s3) = callbacks (trace s2)"
    if "poller s2 = Exited"
    using step_after_exit [OF that closed] run_after_exit [OF assms(3) that closed] by simp
  with closed quit show ?thesis by blast
qed

theorem no_callback_after_exit_witness:
  "step Stop (polling (sample_client\<lparr>quitChan := OpenChan\<rparr>)) =
     Some \<lparr>client = sample_client\<lparr>quitChan := ClosedChan\<rparr>, poller = AtSelect,
           trace = [StopPollingReturned]\<rparr> \<and>
   run [Tick (sample_env 200 [[1]]), Deliver, Return, Quit]
     \<lparr>client = sample_client\<lparr>quitChan := ClosedChan\<rparr>, poller = AtSelect,
      trace = [StopPollingReturned]\<rparr> =
     Some \<lparr>client = sample_client\<lparr>quitChan := ClosedChan\<rparr>, poller = Exited,
           trace = [StopPollingReturned, Callback (Interaction ''dns'')]\<rparr> \<and>
   step (Tick (sample_env 200 [[1]]))
     \<lparr>client = sample_client\<lparr>quitChan := ClosedChan\<rparr>, poller = Exited,
      trace = [StopPollingReturned, Callback (Interaction ''dns'')]\<rparr> = None \<and>
   step Deliver
     \<lparr>client = sample_client\<lparr>quitChan := ClosedChan\<rparr>, poller = Exited,
      trace = [StopPollingReturned, Callback (Interaction ''dns'')]\<rparr> = None"
proof -
  let ?s0 = "polling (sample_client\<lparr>quitChan := OpenChan\<rparr>)"
  let ?s1 = "\<lparr>client = sample_client\<lparr>quitChan := ClosedChan\<rparr>, poller = AtSelect,
      trace = [StopPollingReturned]\<rparr>"
  let ?s2 = "\<lparr>client = sample_client\<lparr>quitChan := ClosedChan\<rparr>, poller = Exited,
      trace = [StopPollingReturned, Callback (Interaction ''dns'')]\<rparr>"
  have stop: "step Stop ?s0 = Some ?s1"
    by (simp add: polling_def StopPolling_def)
  have tick: "run [Tick (sample_env 200 [[1]]), Deliver, Return, Quit] ?s1 = Some ?s2"
    by (simp add: getInteractions_def NewRequest_def sample_env_def sample_client_def
        sample_decrypt_def)
  have rest: "run [] ?s2 = Some ?s2"
    by simp
  have "poller ?s2 = Exited"
    by simp
  then have "\<forall>m. step m ?s2 = None"
    using no_callback_after_exit [OF stop tick rest] by blast
  then have "step (Tick (sample_env 200 [[1]])) ?s2 = None" "step Deliver ?s2 = None"
    by blast+
  with stop tick show ?thesis by blast
qed

section \<open>Identity and key material\<close>

lemma New_identity:
  "New env options = (Some c, e, sent) \<Longrightarrow>
   correlationID c = xid_New env \<and> secretKey c = uuid_New env"
  by (auto simp: New_def Let_def split: sum.splits prod.splits option.splits
      dest!: generateRSAKeyPair_fields)

lemma invoke_identity:
  assumes "invoke x s = Inr s'"
  shows "correlationID (fst s') = correlationID (fst s) \<and>
         secretKey (fst s') = secretKey (fst s)"
  using assms
  by (cases x; cases s)
     (auto simp: StartPolling_def StopPolling_def split: sum.splits chan.splits if_splits)

lemma invoke_all_identity:
  "invoke_all xs s = Inr s' \<Longrightarrow>
   correlationID (fst s') = correlationID (fst s) \<and> secretKey (fst s') = secretKey (fst s)"
proof (induction xs arbitrary: s)
  case Nil
  then show ?case by simp
next
  case (Cons x xs)
  from Cons.prems obtain s1
    where s1: "invoke x s = Inr s1" and rest: "invoke_all xs s1 = Inr s'"
    by (auto split: sum.splits)
  from invoke_identity [OF s1] Cons.IH [OF rest] show ?case by simp
qed

text \<open>Every request \<open>New\<close> sends is the register request built from the public handle.\<close>

lemma New_sent:
  assumes "req \<in> set (snd (snd (New env options)))"
  shows "\<exists>parsed khPriv khPub keyset key data.
           url_Parse env (ServerURL options) = Inr parsed \<and>
           keyset_NewHandle env = Inr khPriv \<and>
           Handle_Public env khPriv = Inr khPub \<and>
           insecurecleartextkeyset_Write env khPub = Inr keyset \<and>
           XXX_Marshal env keyset = Inr key \<and>
           Marshal_RegisterRequest env
             \<lparr>PublicKey = key, SecretKey = uuid_New env, CorrelationID = xid_New env\<rparr> =
             Inr data \<and>
           req = \<lparr>req_Method = ''POST'', req_URL = url_String parsed @ ''/register'',
                  req_Body = Some data, req_ContentLength = int (length data)\<rparr>"
  using assms
  by (auto simp: New_def generateRSAKeyPair_def NewRequest_def Wrap_def Let_def
      split: sum.splits option.splits if_splits)

text \<open>
  The requests of \<open>New\<close> depend on the private handle only through its public
  handle (and through whether a decrypter can be made from it).
\<close>

lemma New_sent_private:
  assumes "keyset_NewHandle env = Inr h"
    and "Handle_Public env h' = Handle_Public env h"
    and "isl (hybrid_NewHybridDecrypt env h') = isl (hybrid_NewHybridDecrypt env h)"
  shows "snd (snd (New (env\<lparr>keyset_NewHandle := Inr h'\<rparr>) options)) =
         snd (snd (New env options))"
  using assms
  by (auto simp: New_def generateRSAKeyPair_def NewRequest_def Wrap_def Let_def isl_def
      split: sum.splits option.splits if_splits)

lemma getInteractions_sent_decrypter:
  "fst (getInteractions env (c\<lparr>decrypter := d\<rparr>)) = fst (getInteractions env c)"
  by (auto simp: getInteractions_def split: sum.splits)

lemma Close_decrypter: "Close env (c\<lparr>decrypter := d\<rparr>) = Close env c"
  by (simp add: Close_def cong: sum.case_cong)

lemma URL_decrypter: "URL (c\<lparr>decrypter := d\<rparr>) now n = URL c now n"
  by (simp add: URL_def)

text \<open>
  C9. The client \<open>New\<close> returns holds the correlation id and the secret that
  were generated for it, and no sequence of calls of \<open>URL\<close>, \<open>StartPolling\<close>,
  \<open>getInteractions\<close>, \<open>StopPolling\<close> and \<open>Close\<close> changes either. The private
  key stays local: the only request \<open>New\<close> sends is the register request,
  whose body is the marshalled \<open>RegisterRequest\<close> of the exported public
  keyset, the secret and the correlation id; replacing the private handle by
  another with the same public handle leaves the requests of \<open>New\<close> as they
  are; and the requests of \<open>getInteractions\<close> and \<open>Close\<close> and the string of
  \<open>URL\<close> do not depend on the decrypter, the only field that holds the
  private key.
\<close>

theorem identity_fixed_and_private_key_local:
  "(New env options = (Some c, e, sent) \<longrightarrow>
      correlationID c = xid_New env \<and> secretKey c = uuid_New env) \<and>
   (invoke_all calls (c, n) = Inr (c', n') \<longrightarrow>
      correlationID c' = correlationID c \<and> secretKey c' = secretKey c) \<and>
   (\<forall>req\<in>set (snd (snd (New env options))).
      \<exists>parsed khPriv khPub keyset key data.
        url_Parse env (ServerURL options) = Inr parsed \<and>
        keyset_NewHandle env = Inr khPriv \<and>
        Handle_Public env khPriv = Inr khPub \<and>
        insecurecleartextkeyset_Write env khPub = Inr keyset \<and>
        XXX_Marshal env keyset = Inr key \<and>
        Marshal_RegisterRequest env
          \<lparr>PublicKey = key, SecretKey = uuid_New env, CorrelationID = xid_New env\<rparr> =
          Inr data \<and>
        req = \<lparr>req_Method = ''POST'', req_URL = url_String parsed @ ''/register'',
               req_Body = Some data, req_ContentLength = int (length data)\<rparr>) \<and>
   (keyset_NewHandle env = Inr h \<and> Handle_Public env h' = Handle_Public env h \<and>
    isl (hybrid_NewHybridDecrypt env h') = isl (hybrid_NewHybridDecrypt env h) \<longrightarrow>
      snd (snd (New (env\<lparr>keyset_NewHandle := Inr h'\<rparr>) options)) =
      snd (snd (New env options))) \<and>
   fst (getInteractions env (c\<lparr>decrypter := d\<rparr>)) = fst (getInteractions env c) \<and>
   Close env (c\<lparr>decrypter := d\<rparr>) = Close env c \<and>
   URL (c\<lparr>decrypter := d\<rparr>) now n = URL c now n"
proof (intro conjI impI ballI)
  assume "New env options = (Some c, e, sent)"
  then show "correlationID c = xid_New env" "secretKey c = uuid_New env"
    by (simp_all add: New_identity)
next
  assume "invoke_all calls (c, n) = Inr (c', n')"
  then show "correlationID c' = correlationID c" "secretKey c' = secretKey c"
    using invoke_all_identity by fastforce+
next
  fix req
  assume "req \<in> set (snd (snd (New env options)))"
  then show "\<exists>parsed khPriv khPub keyset key data.
        url_Parse env (ServerURL options) = Inr parsed \<and>
        keyset_NewHandle env = Inr khPriv \<and>
        Handle_Public env khPriv = Inr khPub \<and>
        insecurecleartextkeyset_Write env khPub = Inr keyset \<and>
        XXX_Marshal env keyset = Inr key \<and>
        Marshal_RegisterRequest env
          \<lparr>PublicKey = key, SecretKey = uuid_New env, CorrelationID = xid_New env\<rparr> =
          Inr data \<and>
        req = \<lparr>req_Method = ''POST'', req_URL = url_String parsed @ ''/register'',
               req_Body = Some data, req_ContentLength = int (length data)\<rparr>"
    by (rule New_sent)
next
  assume "keyset_NewHandle env = Inr h \<and> Handle_Public env h' = Handle_Public env h \<and>
    isl (hybrid_NewHybridDecrypt env h') = isl (hybrid_NewHybridDecrypt env h)"
  then show "snd (snd (New (env\<lparr>keyset_NewHandle := Inr h'\<rparr>) options)) =
      snd (snd (New env options))"
    by (simp add: New_sent_private)
next
  show "fst (getInteractions env (c\<lparr>decrypter := d\<rparr>)) = fst (getInteractions env c)"
    by (rule getInteractions_sent_decrypter)
next
  show "Close env (c\<lparr>decrypter := d\<rparr>) = Close env c"
    by (rule Close_decrypter)
next
  show "URL (c\<lparr>decrypter := d\<rparr>) now n = URL c now n"
    by (rule URL_decrypter)
qed

theorem identity_fixed_and_private_key_local_witness:
  "New (sample_env 200 []) sample_options =
     (Some sample_client, None,
      [\<lparr>req_Method = ''POST'', req_URL = ''https://interact.sh/register'',
        req_Body = Some [7, 8], req_ContentLength = 2\<rparr>]) \<and>
   correlationID sample_client = xid_New (sample_env 200 []) \<and>
   secretKey sample_client = uuid_New (sample_env 200 []) \<and>
   invoke_all [CallURL 1700000000, CallStartPolling 5, CallGetInteractions (sample_env 200 [[1]]),
               CallStopPolling, CallClose (sample_env 200 [])] (sample_client, 0) =
     Inr (sample_client\<lparr>quitChan := ClosedChan\<rparr>, 1) \<and>
   correlationID (sample_client\<lparr>quitChan := ClosedChan\<rparr>) = correlationID sample_client \<and>
   secretKey (sample_client\<lparr>quitChan := ClosedChan\<rparr>) = secretKey sample_client \<and>
   snd (snd (New ((sample_env 200 [])\<lparr>keyset_NewHandle := Inr (Handle [99])\<rparr>) sample_options)) =
     snd (snd (New (sample_env 200 []) sample_options))"
proof -
  let ?env = "sample_env 200 []"
  let ?calls = "[CallURL 1700000000, CallStartPolling 5, CallGetInteractions (sample_env 200 [[1]]),
               CallStopPolling, CallClose (sample_env 200 [])]"
  let ?sent = "[\<lparr>req_Method = ''POST'', req_URL = ''https://interact.sh/register'',
        req_Body = Some [7 :: byte, 8], req_ContentLength = 2\<rparr>]"
  note inst = identity_fixed_and_private_key_local
      [where env = ?env and options = sample_options and c = sample_client and e = None
         and sent = ?sent and calls = ?calls and n = 0
         and c' = "sample_client\<lparr>quitChan := ClosedChan\<rparr>" and n' = 1
         and h = "Handle [5]" and h' = "Handle [99]"]
  have new: "New ?env sample_options = (Some sample_client, None, ?sent)"
    by (simp add: New_def generateRSAKeyPair_def sample_env_def sample_options_def
        sample_client_def NewRequest_def Wrap_def sample_url_def)
  have run: "invoke_all ?calls (sample_client, 0) = Inr (sample_client\<lparr>quitChan := ClosedChan\<rparr>, 1)"
    by (simp add: URL_def Let_def StartPolling_def StopPolling_def getInteractions_def
        NewRequest_def sample_env_def sample_client_def sample_decrypt_def)
  have handles: "keyset_NewHandle ?env = Inr (Handle [5]) \<and>
      Handle_Public ?env (Handle [99]) = Handle_Public ?env (Handle [5]) \<and>
      isl (hybrid_NewHybridDecrypt ?env (Handle [99])) = isl (hybrid_NewHybridDecrypt ?env (Handle [5]))"
    by (simp add: sample_env_def)
  have "correlationID sample_client = xid_New ?env" "secretKey sample_client = uuid_New ?env"
    using inst new by blast+
  moreover have "correlationID (sample_client\<lparr>quitChan := ClosedChan\<rparr>) = correlationID sample_client"
    "secretKey (sample_client\<lparr>quitChan := ClosedChan\<rparr>) = secretKey sample_client"
    using inst run by blast+
  moreover have "snd (snd (New (?env\<lparr>keyset_NewHandle := Inr (Handle [99])\<rparr>) sample_options)) =
     snd (snd (New ?env sample_options))"
    using inst handles by blast
  ultimately show ?thesis
    using new run by blast
qed

end
